theory Spec2Isabelle
  imports Main "HOL-Library.Word" "HOL-Library.Sublist"
begin

unbundle bit_operations_syntax

section \<open>JavaScript strings\<close>

text \<open>
  A JavaScript string is a sequence of UTF-16 code units, so it is modelled as a list of
  16-bit words; \<open>js\<close> writes a literal. \<open>js_includes s sub\<close> is
  \<^verbatim>\<open>s.includes(sub)\<close>: some suffix of \<open>s\<close> starts with \<open>sub\<close>.
\<close>

type_synonym jsstring = "16 word list"

definition js :: "string \<Rightarrow> jsstring" where
  "js s = map (\<lambda>c. of_nat (of_char c)) s"

fun js_includes :: "jsstring \<Rightarrow> jsstring \<Rightarrow> bool" where
  "js_includes [] sub = (sub = [])"
| "js_includes (c # cs) sub = (prefix sub (c # cs) \<or> js_includes cs sub)"

section \<open>Fingerprint: \<^verbatim>\<open>hashString\<close>\<close>

text \<open>
  \<^verbatim>\<open>
  function hashString(str) {
      let hash = 0;
      for (let i = 0; i < str.length; i++) {
          hash = ((hash << 5) - hash) + str.charCodeAt(i);
          hash = hash & hash;
      }
      return hash.toString(36);
  }
  \<close>
  \<^verbatim>\<open>hash & hash\<close> converts to a signed 32-bit integer, and every intermediate value
  is far below \<open>2 ^ 53\<close>, so the loop is arithmetic on 32-bit words, read as two's
  complement at the end. \<^verbatim>\<open>toString(36)\<close> writes a minus sign and the digits
  \<^verbatim>\<open>0-9a-z\<close> of the magnitude.
\<close>

fun hashLoop :: "32 word \<Rightarrow> jsstring \<Rightarrow> 32 word" where
  "hashLoop hash [] = hash"
| "hashLoop hash (c # cs) = hashLoop ((push_bit 5 hash - hash) + ucast c) cs"

definition digit36 :: "nat \<Rightarrow> 16 word" where
  "digit36 d = (if d < 10 then 48 + of_nat d else 87 + of_nat d)"

fun digits36 :: "nat \<Rightarrow> jsstring" where
  "digits36 n = (if n < 36 then [digit36 n] else digits36 (n div 36) @ [digit36 (n mod 36)])"

declare digits36.simps [simp del]

definition toString36 :: "int \<Rightarrow> jsstring" where
  "toString36 i = (if i < 0 then 45 # digits36 (nat (- i)) else digits36 (nat i))"

definition hashString :: "jsstring \<Rightarrow> jsstring" where
  "hashString str = toString36 (sint (hashLoop 0 str))"

section \<open>Target discovery: \<^verbatim>\<open>findTargets\<close>\<close>

text \<open>
  A page descriptor of the \<^verbatim>\<open>/json/list\<close> answer; a field that is absent (or null)
  is \<open>None\<close>. A target is a descriptor with the port it was found on
  (\<^verbatim>\<open>{ ...t, port }\<close>).
\<close>

record page =
  url :: "jsstring option"
  title :: "jsstring option"
  type :: "jsstring option"
  webSocketDebuggerUrl :: "jsstring option"

record target = page +
  port :: nat

definition CDP_PORTS :: "nat list" where
  "CDP_PORTS = [9222, 9000, 9001, 9002, 9003]"

text \<open>
  The filter of the source:
  \<^verbatim>\<open>t.url?.includes('workbench.html') || t.title?.includes('Antigravity') || t.type === 'page'\<close>
\<close>

definition isWorkbench :: "page \<Rightarrow> bool" where
  "isWorkbench t =
     ((case url t of None \<Rightarrow> False | Some u \<Rightarrow> js_includes u (js ''workbench.html''))
      \<or> (case title t of None \<Rightarrow> False | Some s \<Rightarrow> js_includes s (js ''Antigravity''))
      \<or> type t = Some (js ''page''))"

definition tagPort :: "nat \<Rightarrow> page \<Rightarrow> target" where
  "tagPort p t = \<lparr>url = url t, title = title t, type = type t,
                  webSocketDebuggerUrl = webSocketDebuggerUrl t, port = p\<rparr>"

text \<open>
  The answer of one port is \<open>None\<close> when anything inside the \<^verbatim>\<open>try\<close> block throws
  (the port is closed, the request times out, the body is not JSON or not a list of
  descriptors): the \<^verbatim>\<open>catch\<close> then skips the port before anything was pushed.
  Otherwise it is the list of descriptors. The loop runs over the ports with the
  accumulator \<^verbatim>\<open>targets\<close>.
\<close>

fun findTargets_loop :: "(nat \<Rightarrow> page list option) \<Rightarrow> nat list \<Rightarrow> target list \<Rightarrow> target list" where
  "findTargets_loop resp [] targets = targets"
| "findTargets_loop resp (p # ports) targets =
     (case resp p of
        None \<Rightarrow> findTargets_loop resp ports targets
      | Some list \<Rightarrow>
          (let workbenches = filter isWorkbench list
           in findTargets_loop resp ports (targets @ map (tagPort p) workbenches)))"

definition findTargets :: "(nat \<Rightarrow> page list option) \<Rightarrow> target list" where
  "findTargets resp = findTargets_loop resp CDP_PORTS []"

text \<open>
  The discovery contract in the words of the specification: an entry is retained when its
  URL contains the workbench marker, or its title contains the product name, or its type
  equals "page"; \<open>discovery_spec\<close> lists the retained entries, each paired with the port
  that listed it, over the ports in their order and within a port in the order of its
  answer; a port without an answer contributes nothing. \<open>sourcePort\<close> and \<open>descriptor\<close>
  read the tag and the entry off a target of the result.
\<close>

definition permissive_heuristic :: "page \<Rightarrow> bool" where
  "permissive_heuristic t =
     ((\<exists>u. url t = Some u \<and> sublist (js ''workbench.html'') u)
      \<or> (\<exists>s. title t = Some s \<and> sublist (js ''Antigravity'') s)
      \<or> type t = Some (js ''page''))"

definition discovery_spec :: "(nat \<Rightarrow> page list option) \<Rightarrow> (nat \<times> page) list" where
  "discovery_spec resp =
     concat (map (\<lambda>p. case resp p of
                         None \<Rightarrow> []
                       | Some list \<Rightarrow> map (Pair p) (filter permissive_heuristic list))
                 CDP_PORTS)"

definition sourcePort :: "target \<Rightarrow> nat" where
  "sourcePort e = port e"

definition descriptor :: "target \<Rightarrow> page" where
  "descriptor e = \<lparr>url = url e, title = title e, type = type e,
                    webSocketDebuggerUrl = webSocketDebuggerUrl e\<rparr>"

section \<open>Protocol session, context locator and extractor call\<close>

text \<open>
  The remote side (the debugging endpoints, the pages behind them and the consumer's
  callback) is a record of oracles. Every oracle takes the time as its first argument,
  and every remote interaction advances the clock of the state, so the remote side may
  answer differently each time it is asked.

  \<^item> \<open>listing t p\<close>: the answer of port \<open>p\<close> to \<^verbatim>\<open>/json/list\<close>.
  \<^item> \<open>handshake t target\<close>: how \<^verbatim>\<open>connectCDP\<close> ends: the socket does not open
    (error or timeout); it opens and \<^verbatim>\<open>Runtime.enable\<close> is answered with an error, so
    that \<^verbatim>\<open>call\<close> rejects; or both succeed.
  \<^item> \<open>contexts t ws\<close>: the ids in the \<^verbatim>\<open>contexts\<close> array of the session on socket
    \<open>ws\<close>, as the notification handler has left it.
  \<^item> \<open>probe t ws ctx\<close>: the evaluation of the probe script in context \<open>ctx\<close>: it
    throws, or \<^verbatim>\<open>res.result?.value?.found\<close> is truthy or not.
  \<^item> \<open>capture t ws ctx\<close>: the evaluation of the extraction script: it throws, it gives
    no value or a value with an \<^verbatim>\<open>error\<close> field, or it gives a snapshot.
  \<^item> \<open>consumer t cb chat\<close>: what the consumer callback \<open>cb\<close> does when it is called
    with \<open>chat\<close>: it returns, or it throws a value; \<open>Throws True\<close> says that the
    thrown value is \<^verbatim>\<open>null\<close> or \<^verbatim>\<open>undefined\<close>, on which \<^verbatim>\<open>e.message\<close> is itself
    a TypeError.
\<close>

record chat =
  html :: jsstring
  css :: jsstring
  bodyBg :: jsstring
  bodyColor :: jsstring

datatype connect_reply = OpenFails | EnableFails | Connected

datatype probe_reply = ProbeThrows | ProbeFound bool

datatype capture_reply = CaptureThrows | CaptureError | CaptureValue chat

datatype consumer_reply = Returns | Throws bool

record remote =
  listing :: "nat \<Rightarrow> nat \<Rightarrow> page list option"
  handshake :: "nat \<Rightarrow> target \<Rightarrow> connect_reply"
  contexts :: "nat \<Rightarrow> nat \<Rightarrow> nat list"
  probe :: "nat \<Rightarrow> nat \<Rightarrow> nat \<Rightarrow> probe_reply"
  capture :: "nat \<Rightarrow> nat \<Rightarrow> nat \<Rightarrow> capture_reply"
  consumer :: "nat \<Rightarrow> nat \<Rightarrow> chat \<Rightarrow> consumer_reply"

text \<open>
  The state: the four module variables of the source
  (\<^verbatim>\<open>connection\<close>, \<^verbatim>\<open>onChatUpdate\<close>, \<^verbatim>\<open>pollInterval\<close>, \<^verbatim>\<open>lastHash\<close>)
  and what the module has created outside itself. A session object (the result of
  \<^verbatim>\<open>connectCDP\<close>) is identified by the handle of its socket; the variable
  \<^verbatim>\<open>cascadeContextId\<close> of its closure is the entry of the store
  \<open>cascadeContextId\<close> at that handle. \<open>openSockets\<close> are the sockets opened and not
  closed, \<open>activeIntervals\<close> the timers set and not cleared (handle and period),
  \<open>calls\<close> the invocations of consumer callbacks so far, oldest first. Context ids
  and handles are numbers; a consumer callback is identified by a number.
\<close>

record state =
  connection :: "nat option"
  onChatUpdate :: "nat option"
  pollInterval :: "nat option"
  lastHash :: "jsstring option"
  cascadeContextId :: "nat \<Rightarrow> nat option"
  openSockets :: "nat list"
  activeIntervals :: "(nat \<times> nat) list"
  nextHandle :: nat
  clock :: nat
  calls :: "(nat \<times> chat) list"

definition initial :: state where
  "initial = \<lparr>connection = None, onChatUpdate = None, pollInterval = None, lastHash = None,
              cascadeContextId = (\<lambda>ws. None), openSockets = [], activeIntervals = [],
              nextHandle = 0, clock = 0, calls = []\<rparr>"

definition tick :: "state \<Rightarrow> state" where
  "tick w = w\<lparr>clock := Suc (clock w)\<rparr>"

definition closeSocket :: "nat \<Rightarrow> state \<Rightarrow> state" where
  "closeSocket ws w = w\<lparr>openSockets := removeAll ws (openSockets w)\<rparr>"

definition setCascadeContextId :: "nat \<Rightarrow> nat option \<Rightarrow> state \<Rightarrow> state" where
  "setCascadeContextId cdp v w = w\<lparr>cascadeContextId := (cascadeContextId w)(cdp := v)\<rparr>"

text \<open>
  \<^verbatim>\<open>connectCDP\<close>: \<open>None\<close> is the exception. When \<^verbatim>\<open>Runtime.enable\<close> is rejected the
  socket is already open, and nothing in \<^verbatim>\<open>connectCDP\<close> or in its callers closes it.
\<close>

definition connectCDP :: "remote \<Rightarrow> state \<Rightarrow> target \<Rightarrow> nat option \<times> state" where
  "connectCDP r w t =
     (let ws = nextHandle w in
      case handshake r (clock w) t of
        OpenFails \<Rightarrow> (None, tick w)
      | EnableFails \<Rightarrow>
          (None, (tick w)\<lparr>openSockets := openSockets w @ [ws], nextHandle := Suc ws\<rparr>)
      | Connected \<Rightarrow>
          (Some ws, setCascadeContextId ws None
                      ((tick w)\<lparr>openSockets := openSockets w @ [ws], nextHandle := Suc ws\<rparr>)))"

text \<open>
  \<^verbatim>\<open>findCascadeContext\<close>. The tests \<^verbatim>\<open>if (cdp.getCascadeContextId())\<close> and, in the
  callers, \<^verbatim>\<open>if (contextId)\<close> are truthiness tests: \<^verbatim>\<open>null\<close> and the number 0
  fail them, which is the pattern \<open>Some (Suc n)\<close> below. The \<^verbatim>\<open>catch\<close> of the cached
  probe is the only place that resets the cache.
\<close>

fun searchContexts :: "remote \<Rightarrow> state \<Rightarrow> nat \<Rightarrow> nat list \<Rightarrow> nat option \<times> state" where
  "searchContexts r w cdp [] = (None, w)"
| "searchContexts r w cdp (ctx # ctxs) =
     (case probe r (clock w) cdp ctx of
        ProbeThrows \<Rightarrow> searchContexts r (tick w) cdp ctxs
      | ProbeFound found \<Rightarrow>
          if found then (Some ctx, setCascadeContextId cdp (Some ctx) (tick w))
          else searchContexts r (tick w) cdp ctxs)"

definition searchAll :: "remote \<Rightarrow> state \<Rightarrow> nat \<Rightarrow> nat option \<times> state" where
  "searchAll r w cdp = searchContexts r w cdp (contexts r (clock w) cdp)"

definition findCascadeContext :: "remote \<Rightarrow> state \<Rightarrow> nat \<Rightarrow> nat option \<times> state" where
  "findCascadeContext r w cdp =
     (case cascadeContextId w cdp of
        Some (Suc n) \<Rightarrow>
          (case probe r (clock w) cdp (Suc n) of
             ProbeFound found \<Rightarrow>
               if found then (Some (Suc n), tick w) else searchAll r (tick w) cdp
           | ProbeThrows \<Rightarrow> searchAll r (setCascadeContextId cdp None (tick w)) cdp)
      | _ \<Rightarrow> searchAll r w cdp)"

text \<open>
  \<^verbatim>\<open>captureChat\<close> returns the value of the extraction script, or \<^verbatim>\<open>null\<close> when the
  evaluation throws, gives no value, or gives a value with an \<^verbatim>\<open>error\<close> field.
\<close>

definition captureChat :: "remote \<Rightarrow> state \<Rightarrow> nat \<Rightarrow> nat \<Rightarrow> chat option \<times> state" where
  "captureChat r w cdp contextId =
     (case capture r (clock w) cdp contextId of
        CaptureValue v \<Rightarrow> (Some v, tick w)
      | _ \<Rightarrow> (None, tick w))"

section \<open>Poller and session lifecycle\<close>

text \<open>
  One poll cycle, the closure \<^verbatim>\<open>poll\<close> of \<^verbatim>\<open>startChatStream\<close>. It reads and
  writes module variables only, so every instance of the closure is this function. The
  body has no \<^verbatim>\<open>try\<close>: an exception of the consumer callback leaves it
  (\<open>Threw\<close>, with the flag of the thrown value), after \<^verbatim>\<open>lastHash\<close> has been
  assigned.
\<close>

datatype outcome = Returned | Threw bool

definition poll :: "remote \<Rightarrow> state \<Rightarrow> outcome \<times> state" where
  "poll r w =
     (case connection w of
        None \<Rightarrow> (Returned, w)
      | Some conn \<Rightarrow>
          (case findCascadeContext r w conn of
             (Some (Suc n), w1) \<Rightarrow>
               (case captureChat r w1 conn (Suc n) of
                  (None, w2) \<Rightarrow> (Returned, w2)
                | (Some c, w2) \<Rightarrow>
                    if html c = [] then (Returned, w2)
                    else
                      (let hash = hashString (html c) in
                       if Some hash \<noteq> lastHash w2 then
                         (let w3 = w2\<lparr>lastHash := Some hash\<rparr> in
                          case onChatUpdate w3 of
                            None \<Rightarrow> (Returned, w3)
                          | Some cb \<Rightarrow>
                              (let w4 = (tick w3)\<lparr>calls := calls w3 @ [(cb, c)]\<rparr> in
                               case consumer r (clock w3) cb c of
                                 Returns \<Rightarrow> (Returned, w4)
                               | Throws nullish \<Rightarrow> (Threw nullish, w4)))
                       else (Returned, w2)))
           | (_, w1) \<Rightarrow> (Returned, w1)))"

text \<open>
  The recurring schedule: \<^verbatim>\<open>setInterval\<close> calls \<^verbatim>\<open>poll\<close> again whatever the
  previous call did. \<open>pollCycles r w n\<close> is the state after \<open>n\<close> cycles, run one after
  the other.
\<close>

fun pollCycles :: "remote \<Rightarrow> state \<Rightarrow> nat \<Rightarrow> state" where
  "pollCycles r w 0 = w"
| "pollCycles r w (Suc n) = pollCycles r (snd (poll r w)) n"

definition setInterval :: "nat \<Rightarrow> state \<Rightarrow> state" where
  "setInterval pollMs w =
     w\<lparr>pollInterval := Some (nextHandle w),
       activeIntervals := activeIntervals w @ [(nextHandle w, pollMs)],
       nextHandle := Suc (nextHandle w)\<rparr>"

definition clearInterval :: "nat \<Rightarrow> state \<Rightarrow> state" where
  "clearInterval h w = w\<lparr>activeIntervals := filter (\<lambda>i. fst i \<noteq> h) (activeIntervals w)\<rparr>"

text \<open>
  \<^verbatim>\<open>startChatStream\<close>. The result is \<^verbatim>\<open>{ success: true, target: target.title }\<close>
  or \<^verbatim>\<open>{ success: false, error }\<close>, or the promise is rejected. The loop over the
  targets has one \<^verbatim>\<open>try\<close> around its body: an exception of \<^verbatim>\<open>connectCDP\<close> or
  of the first \<^verbatim>\<open>poll\<close> is logged with \<^verbatim>\<open>e.message\<close> and the loop goes on with
  the next target. \<^verbatim>\<open>connectCDP\<close> throws Error objects; when the consumer threw
  \<^verbatim>\<open>null\<close> or \<^verbatim>\<open>undefined\<close>, reading \<^verbatim>\<open>e.message\<close> throws inside the
  \<^verbatim>\<open>catch\<close> and the call is rejected.
\<close>

datatype start_result = Started "jsstring option" | NotStarted jsstring | Rejected

fun success :: "start_result \<Rightarrow> bool" where
  "success (Started t) = True"
| "success (NotStarted e) = False"
| "success Rejected = False"

fun tryTargets :: "remote \<Rightarrow> nat \<Rightarrow> state \<Rightarrow> target list \<Rightarrow> start_result \<times> state" where
  "tryTargets r pollMs w [] = (NotStarted (js ''No cascade element found in any target''), w)"
| "tryTargets r pollMs w (t # ts) =
     (case connectCDP r w t of
        (None, w1) \<Rightarrow> tryTargets r pollMs w1 ts
      | (Some cdp, w1) \<Rightarrow>
          (case findCascadeContext r w1 cdp of
             (Some (Suc n), w2) \<Rightarrow>
               (case poll r (w2\<lparr>connection := Some cdp\<rparr>) of
                  (Threw nullish, w3) \<Rightarrow>
                    if nullish then (Rejected, w3) else tryTargets r pollMs w3 ts
                | (Returned, w3) \<Rightarrow> (Started (title t), setInterval pollMs w3))
           | (_, w2) \<Rightarrow> tryTargets r pollMs (closeSocket cdp w2) ts))"

definition startChatStream :: "remote \<Rightarrow> state \<Rightarrow> nat option \<Rightarrow> nat \<Rightarrow> start_result \<times> state" where
  "startChatStream r w updateCallback pollMs =
     (let w0 = w\<lparr>onChatUpdate := updateCallback\<rparr>;
          targets = findTargets (listing r (clock w0));
          w1 = tick w0
      in if targets = [] then (NotStarted (js ''No CDP targets found''), w1)
         else tryTargets r pollMs w1 targets)"

definition stopChatStream :: "state \<Rightarrow> state" where
  "stopChatStream w =
     (let w1 = (case pollInterval w of
                  None \<Rightarrow> w
                | Some h \<Rightarrow> (clearInterval h w)\<lparr>pollInterval := None\<rparr>);
          w2 = (case connection w1 of
                  None \<Rightarrow> w1
                | Some conn \<Rightarrow> (closeSocket conn w1)\<lparr>connection := None\<rparr>)
      in w2\<lparr>lastHash := None, onChatUpdate := None\<rparr>)"

text \<open>\<^verbatim>\<open>getChatSnapshot\<close>: the loop over the targets, then the function.\<close>

fun snapshotTargets :: "remote \<Rightarrow> state \<Rightarrow> target list \<Rightarrow> chat option \<times> state" where
  "snapshotTargets r w [] = (None, w)"
| "snapshotTargets r w (t # ts) =
     (case connectCDP r w t of
        (None, w1) \<Rightarrow> snapshotTargets r w1 ts
      | (Some cdp, w1) \<Rightarrow>
          (case findCascadeContext r w1 cdp of
             (Some (Suc n), w2) \<Rightarrow>
               (case captureChat r w2 cdp (Suc n) of
                  (chat, w3) \<Rightarrow> (chat, closeSocket cdp w3))
           | (_, w2) \<Rightarrow> snapshotTargets r (closeSocket cdp w2) ts))"

definition getChatSnapshot :: "remote \<Rightarrow> state \<Rightarrow> chat option \<times> state" where
  "getChatSnapshot r w =
     (case connection w of
        None \<Rightarrow> snapshotTargets r (tick w) (findTargets (listing r (clock w)))
      | Some conn \<Rightarrow>
          (case findCascadeContext r w conn of
             (Some (Suc n), w1) \<Rightarrow> captureChat r w1 conn (Suc n)
           | (_, w1) \<Rightarrow> (None, w1)))"

definition isStreaming :: "state \<Rightarrow> bool" where
  "isStreaming w = (connection w \<noteq> None \<and> pollInterval w \<noteq> None)"

section \<open>The extraction script of \<^verbatim>\<open>captureChat\<close>: reading the page\<close>

text \<open>
  The script runs inside the page. The tree it reads is a tree of elements (name,
  attributes, children) and text nodes. Inside the page, strings are HOL strings: the
  script compares names, attribute values and text with ASCII literals only, and
  \<open>trim\<close> removes the white space of that range.
\<close>

type_synonym attrs = "(string \<times> string) list"































section \<open>The clone\<close>

text \<open>
  The script changes the clone in place and holds on to nodes it has found before
  (static node lists), so the nodes of the clone carry an identity: the elements are
  numbered in document order when the clone is made, and an element created later gets
  the next free number. Removing or replacing a node that is no longer in the clone
  changes nothing in the clone.
\<close>

datatype cnode = CElement nat string attrs "cnode list" | CText string





fun ident :: "cnode \<Rightarrow> nat option" where
  "ident (CText s) = None"
| "ident (CElement i t as cs) = Some i"







fun replaceNode :: "nat \<Rightarrow> cnode \<Rightarrow> cnode \<Rightarrow> cnode" where
  "replaceNode i new (CText s) = CText s"
| "replaceNode i new (CElement j t as cs) =
     CElement j t as (map (\<lambda>c. if ident c = Some i then new else replaceNode i new c) cs)"

text \<open>
  The ancestors of the element \<open>i\<close> inside \<open>n\<close>, nearest first, \<open>n\<close> itself last;
  \<open>None\<close> when the element is not in \<open>n\<close>.
\<close>

fun cancestors :: "nat \<Rightarrow> cnode \<Rightarrow> cnode list option"
  and cancestorsList :: "nat \<Rightarrow> cnode list \<Rightarrow> cnode list option" where
  "cancestors i (CText s) = None"
| "cancestors i (CElement j t as cs) =
     (if j = i then Some []
      else (case cancestorsList i cs of
              None \<Rightarrow> None
            | Some p \<Rightarrow> Some (p @ [CElement j t as cs])))"
| "cancestorsList i [] = None"
| "cancestorsList i (c # cs) =
     (case cancestors i c of Some p \<Rightarrow> Some p | None \<Rightarrow> cancestorsList i cs)"



section \<open>The script\<close>






















section \<open>Specification predicates\<close>

text \<open>
  \<open>moduleVars\<close> collects the four module variables. \<open>fingerprints\<close> are the
  fingerprints of the snapshots handed to the consumer, in order; \<open>changeGated prev hs\<close>
  says that every fingerprint in \<open>hs\<close> differs from the one before it, the first from
  \<open>prev\<close> when there is one.
\<close>

definition moduleVars :: "state \<Rightarrow> nat option \<times> nat option \<times> nat option \<times> jsstring option" where
  "moduleVars w = (connection w, onChatUpdate w, pollInterval w, lastHash w)"

fun changeGated :: "jsstring option \<Rightarrow> jsstring list \<Rightarrow> bool" where
  "changeGated prev [] = True"
| "changeGated prev (h # hs) = (prev \<noteq> Some h \<and> changeGated (Some h) hs)"

definition fingerprints :: "(nat \<times> chat) list \<Rightarrow> jsstring list" where
  "fingerprints cs = map (\<lambda>e. hashString (html (snd e))) cs"

text \<open>
  \<open>gatedRun w w' us\<close>: between the states \<open>w\<close> and \<open>w'\<close> the consumer was called
  with \<open>us\<close>, the calls are change-gated from \<^verbatim>\<open>lastHash\<close> of \<open>w\<close>, and
  \<^verbatim>\<open>lastHash\<close> of \<open>w'\<close> is the fingerprint of the last call (while a consumer is
  registered).
\<close>

definition gatedRun :: "state \<Rightarrow> state \<Rightarrow> (nat \<times> chat) list \<Rightarrow> bool" where
  "gatedRun w w' us =
     (calls w' = calls w @ us \<and> onChatUpdate w' = onChatUpdate w
      \<and> changeGated (lastHash w) (fingerprints us)
      \<and> (onChatUpdate w = None \<longrightarrow> us = [])
      \<and> (onChatUpdate w \<noteq> None \<longrightarrow>
            lastHash w' = (if us = [] then lastHash w else Some (last (fingerprints us)))))"









section \<open>Scenarios\<close>

text \<open>
  The scenario of the specification: the first port is closed, the second lists one page
  titled "Workbench", the third lists two entries that match nothing.
\<close>

definition scenario_ports :: "nat \<Rightarrow> page list option" where
  "scenario_ports p =
     (if p = 9000 then
        Some [\<lparr>url = Some (js ''vscode-file://a''), title = Some (js ''Workbench''),
               type = Some (js ''page''), webSocketDebuggerUrl = Some (js ''ws://b'')\<rparr>]
      else if p = 9001 then
        Some [\<lparr>url = Some (js ''chrome://x''), title = Some (js ''worker''),
               type = Some (js ''service_worker''), webSocketDebuggerUrl = Some (js ''ws://c1'')\<rparr>,
              \<lparr>url = None, title = None, type = Some (js ''iframe''),
               webSocketDebuggerUrl = Some (js ''ws://c2'')\<rparr>]
      else None)"


text \<open>
  A remote side on which everything works (one workbench page on port 9222, one context,
  the chat root present, the snapshot \<open>chatA\<close>), variations of it, and two states.
\<close>

definition page1 :: page where
  "page1 = \<lparr>url = Some (js ''vscode-file://app/workbench.html''), title = Some (js ''Antigravity''),
            type = Some (js ''page''), webSocketDebuggerUrl = Some (js ''ws://127.0.0.1:9222/p1'')\<rparr>"

definition chatA :: chat where
  "chatA = \<lparr>html = js ''<div id=cascade>A</div>'', css = [], bodyBg = [], bodyColor = []\<rparr>"

definition chatB :: chat where
  "chatB = \<lparr>html = js ''<div id=cascade>B</div>'', css = [], bodyBg = [], bodyColor = []\<rparr>"

definition healthy :: remote where
  "healthy = \<lparr>listing = (\<lambda>t p. if p = 9222 then Some [page1] else None),
               handshake = (\<lambda>t tg. Connected),
               contexts = (\<lambda>t ws. [1]),
               probe = (\<lambda>t ws ctx. ProbeFound True),
               capture = (\<lambda>t ws ctx. CaptureValue chatA),
               consumer = (\<lambda>t cb c. Returns)\<rparr>"

definition streaming :: state where
  "streaming = initial\<lparr>connection := Some 0, onChatUpdate := Some 7, pollInterval := Some 1,
                        openSockets := [0], activeIntervals := [(1, 2000)], nextHandle := 2\<rparr>"

definition silent :: remote where
  "silent = healthy\<lparr>listing := (\<lambda>t p. None)\<rparr>"

definition rootGone :: remote where
  "rootGone = healthy\<lparr>contexts := (\<lambda>t ws. [3, 5]), probe := (\<lambda>t ws ctx. ProbeFound False)\<rparr>"

definition rootMoved :: remote where
  "rootMoved = healthy\<lparr>contexts := (\<lambda>t ws. [3, 5]), probe := (\<lambda>t ws ctx. ProbeFound (ctx = 3))\<rparr>"

definition contextDestroyed :: remote where
  "contextDestroyed = healthy\<lparr>contexts := (\<lambda>t ws. [3, 5]), probe := (\<lambda>t ws ctx. ProbeThrows)\<rparr>"

definition cached5 :: state where
  "cached5 = streaming\<lparr>cascadeContextId := (\<lambda>ws. if ws = 0 then Some 5 else None)\<rparr>"

definition throwing :: remote where
  "throwing = healthy\<lparr>consumer := (\<lambda>t cb c. Throws False)\<rparr>"

definition enableRejected :: remote where
  "enableRejected = healthy\<lparr>handshake := (\<lambda>t tg. EnableFails)\<rparr>"

definition changing :: remote where
  "changing = healthy\<lparr>capture := (\<lambda>t ws ctx. CaptureValue (if t < 6 then chatA else chatB))\<rparr>"

definition afterA :: state where
  "afterA = streaming\<lparr>lastHash := Some (hashString (html chatA))\<rparr>"

definition showsB :: remote where
  "showsB = healthy\<lparr>capture := (\<lambda>t ws ctx. CaptureValue chatB)\<rparr>"










text \<open>
  The clone of such a document as \<^verbatim>\<open>cloneNode\<close> numbers it: the chat root is 0, the
  terminal container 1, the accessibility layer and its rows 2 to 4, the screen layer 5,
  and \<open>labelsFrom 6 k\<close> are the numbers of the canvases.
\<close>

definition canvasC :: "nat \<Rightarrow> cnode" where
  "canvasC i = CElement i ''canvas'' [] []"





section \<open>Evaluating the fingerprint; discovery\<close>

lemma digits36_small: "n < 36 \<Longrightarrow> digits36 n = [digit36 n]"
  by (simp add: digits36.simps)

lemma digits36_large: "\<not> n < 36 \<Longrightarrow> digits36 n = digits36 (n div 36) @ [digit36 (n mod 36)]"
  by (subst digits36.simps) simp

lemmas hash_eval = hashString_def toString36_def digits36_small digits36_large digit36_def js_def

lemma hashString_abc: "hashString (js ''abc'') = js ''22ci''"
  by (simp add: hash_eval)

lemma js_includes_sublist: "js_includes s sub = sublist sub s"
  by (induction s) (simp_all add: sublist_Cons_right)

lemma isWorkbench_heuristic: "isWorkbench t = permissive_heuristic t"
  by (auto simp: isWorkbench_def permissive_heuristic_def js_includes_sublist split: option.splits)

lemma findTargets_loop_spec:
  "map (\<lambda>e. (sourcePort e, descriptor e)) (findTargets_loop resp ports acc) =
     map (\<lambda>e. (sourcePort e, descriptor e)) acc
     @ concat (map (\<lambda>p. case resp p of
                           None \<Rightarrow> []
                         | Some list \<Rightarrow> map (Pair p) (filter permissive_heuristic list))
                   ports)"
proof (induction ports arbitrary: acc)
  case Nil
  show ?case by simp
next
  case (Cons p ports)
  have "isWorkbench = permissive_heuristic"
    by (rule ext) (rule isWorkbench_heuristic)
  then have same: "filter isWorkbench = filter permissive_heuristic"
    by simp
  have tagged: "(\<lambda>e. (sourcePort e, descriptor e)) \<circ> tagPort p = Pair p"
    by (rule ext) (simp add: sourcePort_def descriptor_def tagPort_def)
  show ?case
    by (cases "resp p") (simp_all add: Cons.IH same tagged)
qed

lemma target_determined:
  "sourcePort a = sourcePort b \<Longrightarrow> descriptor a = descriptor b \<Longrightarrow> a = (b :: target)"
  by (cases a, cases b) (simp add: sourcePort_def descriptor_def)

lemma discovery_spec_scenario:
  "discovery_spec scenario_ports =
     [(9000, \<lparr>url = Some (js ''vscode-file://a''), title = Some (js ''Workbench''),
               type = Some (js ''page''), webSocketDebuggerUrl = Some (js ''ws://b'')\<rparr>)]"
  by (simp add: discovery_spec_def CDP_PORTS_def scenario_ports_def
        isWorkbench_heuristic [symmetric] isWorkbench_def js_def)

text \<open>
  Claim C7. Whatever each port answers, the targets that discovery returns are, read as
  (source port, entry) pairs, exactly the entries that match the permissive heuristic,
  each with the port that listed it, in port order and in each port's own order (a target
  is nothing but its port and its entry, so this fixes the result); discovery is a total
  function (every exception is caught inside the loop), and when no port answers the
  result is the empty list.
\<close>

theorem findTargets_discovery:
  "map (\<lambda>e. (sourcePort e, descriptor e)) (findTargets resp) = discovery_spec resp
   \<and> (\<forall>a b. sourcePort a = sourcePort b \<and> descriptor a = descriptor b \<longrightarrow> a = b)
   \<and> ((\<forall>p \<in> set CDP_PORTS. resp p = None) \<longrightarrow> findTargets resp = [])"
proof -
  have eq: "map (\<lambda>e. (sourcePort e, descriptor e)) (findTargets resp) = discovery_spec resp"
    by (simp add: findTargets_def discovery_spec_def findTargets_loop_spec)
  have "findTargets resp = []" if "\<forall>p \<in> set CDP_PORTS. resp p = None"
  proof -
    from that have "discovery_spec resp = []" by (simp add: discovery_spec_def)
    with eq show ?thesis by simp
  qed
  with eq target_determined show ?thesis by blast
qed

text \<open>
  The scenario of the specification (the first port closed, the second listing one page,
  the third listing two entries that match nothing), and the run with every port closed.
\<close>

theorem findTargets_discovery_witness:
  "findTargets scenario_ports =
     [\<lparr>url = Some (js ''vscode-file://a''), title = Some (js ''Workbench''),
       type = Some (js ''page''), webSocketDebuggerUrl = Some (js ''ws://b''), port = 9000\<rparr>]
   \<and> map (\<lambda>e. (sourcePort e, descriptor e)) (findTargets scenario_ports) =
       [(9000, \<lparr>url = Some (js ''vscode-file://a''), title = Some (js ''Workbench''),
                 type = Some (js ''page''), webSocketDebuggerUrl = Some (js ''ws://b'')\<rparr>)]
   \<and> findTargets (\<lambda>p. None) = []"
proof -
  let ?b = "\<lparr>url = Some (js ''vscode-file://a''), title = Some (js ''Workbench''),
             type = Some (js ''page''), webSocketDebuggerUrl = Some (js ''ws://b'')\<rparr>"
  let ?e = "\<lparr>url = Some (js ''vscode-file://a''), title = Some (js ''Workbench''),
             type = Some (js ''page''), webSocketDebuggerUrl = Some (js ''ws://b''), port = 9000\<rparr>"
  note scenario = findTargets_discovery [of scenario_ports]
  from scenario have pairs:
    "map (\<lambda>e. (sourcePort e, descriptor e)) (findTargets scenario_ports) = [(9000, ?b)]"
    by (simp add: discovery_spec_scenario)
  then obtain e where one: "findTargets scenario_ports = [e]"
    and "sourcePort e = 9000" and "descriptor e = ?b"
    by (cases "findTargets scenario_ports") auto
  moreover have "sourcePort ?e = 9000" "descriptor ?e = ?b"
    by (simp_all add: sourcePort_def descriptor_def)
  ultimately have "e = ?e"
    using scenario by simp
  with one have first: "findTargets scenario_ports = [?e]" by simp
  from findTargets_discovery [of "\<lambda>p. None"] have "findTargets (\<lambda>p. None) = []" by simp
  with first pairs show ?thesis by (intro conjI)
qed

section \<open>Frame properties of the session operations\<close>

lemmas model_defs = startChatStream_def stopChatStream_def getChatSnapshot_def poll_def
  findCascadeContext_def searchAll_def captureChat_def connectCDP_def findTargets_def
  CDP_PORTS_def isWorkbench_def tagPort_def isStreaming_def initial_def
  tick_def closeSocket_def setCascadeContextId_def setInterval_def clearInterval_def Let_def

lemmas scenario_defs = healthy_def page1_def chatA_def chatB_def streaming_def
  silent_def rootGone_def rootMoved_def contextDestroyed_def cached5_def throwing_def enableRejected_def
  changing_def

lemmas state_ops = tick_def closeSocket_def setCascadeContextId_def setInterval_def clearInterval_def

lemma searchContexts_frame:
  "searchContexts r w cdp cs = (res, w') \<Longrightarrow>
     moduleVars w' = moduleVars w \<and> calls w' = calls w \<and> openSockets w' = openSockets w
     \<and> activeIntervals w' = activeIntervals w \<and> nextHandle w' = nextHandle w"
  by (induction cs arbitrary: w)
     (auto simp: state_ops moduleVars_def split: probe_reply.splits if_splits)

lemma findCascadeContext_frame:
  "findCascadeContext r w cdp = (res, w') \<Longrightarrow>
     moduleVars w' = moduleVars w \<and> calls w' = calls w \<and> openSockets w' = openSockets w
     \<and> activeIntervals w' = activeIntervals w \<and> nextHandle w' = nextHandle w"
  unfolding findCascadeContext_def searchAll_def
  by (auto simp: state_ops moduleVars_def split: option.splits nat.splits probe_reply.splits if_splits
           dest!: searchContexts_frame)

lemma captureChat_frame:
  "captureChat r w cdp ctx = (res, w') \<Longrightarrow>
     moduleVars w' = moduleVars w \<and> calls w' = calls w \<and> openSockets w' = openSockets w
     \<and> activeIntervals w' = activeIntervals w \<and> nextHandle w' = nextHandle w"
  by (auto simp: captureChat_def state_ops moduleVars_def split: capture_reply.splits)

lemma connectCDP_frame:
  "connectCDP r w t = (res, w') \<Longrightarrow>
     moduleVars w' = moduleVars w \<and> calls w' = calls w \<and> activeIntervals w' = activeIntervals w"
  by (auto simp: connectCDP_def Let_def state_ops moduleVars_def split: connect_reply.splits)

lemma closeSocket_frame:
  "moduleVars (closeSocket ws w) = moduleVars w \<and> calls (closeSocket ws w) = calls w
   \<and> activeIntervals (closeSocket ws w) = activeIntervals w"
  by (simp add: state_ops moduleVars_def)

lemma searchContexts_found:
  "searchContexts r w cdp cs = (Some ctx, w') \<Longrightarrow> \<exists>t. probe r t cdp ctx = ProbeFound True"
  by (induction cs arbitrary: w) (auto split: probe_reply.splits if_splits)

lemma findCascadeContext_found:
  "findCascadeContext r w cdp = (Some ctx, w') \<Longrightarrow> \<exists>t. probe r t cdp ctx = ProbeFound True"
  unfolding findCascadeContext_def searchAll_def
  by (auto split: option.splits nat.splits probe_reply.splits if_splits dest: searchContexts_found)

lemma moduleVars_eqD:
  "moduleVars w' = moduleVars w \<Longrightarrow>
     connection w' = connection w \<and> onChatUpdate w' = onChatUpdate w
     \<and> pollInterval w' = pollInterval w \<and> lastHash w' = lastHash w"
  by (simp add: moduleVars_def)

section \<open>The context locator\<close>

lemma searchContexts_cache:
  "searchContexts r w cdp cs = (res, w') \<Longrightarrow>
     cascadeContextId w' cdp = (case res of None \<Rightarrow> cascadeContextId w cdp | Some ctx \<Rightarrow> Some ctx)"
  by (induction cs arbitrary: w)
     (auto simp: state_ops split: probe_reply.splits if_splits option.splits)

lemma findCascadeContext_stale_cache:
  assumes "cascadeContextId w cdp = Some (Suc n)"
    and "probe r (clock w) cdp (Suc n) = ProbeFound False"
  shows "findCascadeContext r w cdp = searchAll r (tick w) cdp"
    and "fst (findCascadeContext r w cdp) = None \<Longrightarrow>
           cascadeContextId (snd (findCascadeContext r w cdp)) cdp = Some (Suc n)"
proof -
  show eq: "findCascadeContext r w cdp = searchAll r (tick w) cdp"
    using assms by (simp add: findCascadeContext_def)
  assume none: "fst (findCascadeContext r w cdp) = None"
  have "searchContexts r (tick w) cdp (contexts r (clock (tick w)) cdp)
          = (fst (findCascadeContext r w cdp), snd (findCascadeContext r w cdp))"
    by (simp add: eq searchAll_def)
  from searchContexts_cache [OF this] none assms(1)
  show "cascadeContextId (snd (findCascadeContext r w cdp)) cdp = Some (Suc n)"
    by (simp add: tick_def)
qed

text \<open>
  Claim C2 (the code departs from it). The session has the cached context 5 and the live
  contexts 3 and 5. When the probe of the cached context reports \<open>found = false\<close> and no
  context hosts the chat root, the locator returns none and the cache still holds 5: the
  scan did run (with the chat root in context 3 it returns 3 and caches it), but the
  cache was not cleared before it. Only the \<^verbatim>\<open>catch\<close> branch clears the cache, as the
  last two lines show on a probe that throws.
\<close>

theorem cached_probe_not_found_keeps_cache:
  "cascadeContextId cached5 0 = Some 5
   \<and> probe rootGone (clock cached5) 0 5 = ProbeFound False
   \<and> fst (findCascadeContext rootGone cached5 0) = None
   \<and> cascadeContextId (snd (findCascadeContext rootGone cached5 0)) 0 = Some 5
   \<and> cascadeContextId (snd (findCascadeContext rootGone cached5 0)) 0 \<noteq> None
   \<and> probe rootMoved (clock cached5) 0 5 = ProbeFound False
   \<and> fst (findCascadeContext rootMoved cached5 0) = Some 3
   \<and> cascadeContextId (snd (findCascadeContext rootMoved cached5 0)) 0 = Some 3
   \<and> fst (findCascadeContext contextDestroyed cached5 0) = None
   \<and> cascadeContextId (snd (findCascadeContext contextDestroyed cached5 0)) 0 = None"
  by (simp add: model_defs scenario_defs)

section \<open>The change-gated poller\<close>

lemma poll_step:
  assumes "poll r w = (out, w')"
  shows "onChatUpdate w' = onChatUpdate w \<and> connection w' = connection w
     \<and> pollInterval w' = pollInterval w \<and> activeIntervals w' = activeIntervals w
     \<and> openSockets w' = openSockets w
     \<and> ((calls w' = calls w \<and> (onChatUpdate w \<noteq> None \<longrightarrow> lastHash w' = lastHash w) \<and> out = Returned)
        \<or> (\<exists>cb c. calls w' = calls w @ [(cb, c)] \<and> onChatUpdate w = Some cb
              \<and> lastHash w \<noteq> Some (hashString (html c))
              \<and> lastHash w' = Some (hashString (html c))))"
proof (cases "connection w")
  case None
  with assms show ?thesis by (simp add: poll_def)
next
  case (Some conn)
  obtain ctx w1 where l: "findCascadeContext r w conn = (ctx, w1)"
    by (cases "findCascadeContext r w conn")
  note f1 = findCascadeContext_frame [OF l]
  note m1 = moduleVars_eqD [OF f1 [THEN conjunct1]]
  show ?thesis
  proof (cases "\<exists>n. ctx = Some (Suc n)")
    case False
    with assms Some l have "out = Returned" "w' = w1"
      by (auto simp: poll_def split: option.splits nat.splits)
    with f1 m1 show ?thesis by simp
  next
    case True
    then obtain n where n: "ctx = Some (Suc n)" ..
    obtain ch w2 where c: "captureChat r w1 conn (Suc n) = (ch, w2)"
      by (cases "captureChat r w1 conn (Suc n)")
    note f2 = captureChat_frame [OF c]
    note m2 = moduleVars_eqD [OF f2 [THEN conjunct1]]
    have eq: "connection w2 = connection w" "onChatUpdate w2 = onChatUpdate w"
      "pollInterval w2 = pollInterval w" "lastHash w2 = lastHash w" "calls w2 = calls w"
      "activeIntervals w2 = activeIntervals w" "openSockets w2 = openSockets w"
      using f1 m1 f2 m2 by simp_all
    show ?thesis
    proof (cases ch)
      case None
      with assms Some l n c have "out = Returned" "w' = w2" by (simp_all add: poll_def)
      with eq show ?thesis by simp
    next
      case (Some c0)
      note ch = this
      show ?thesis
      proof (cases "html c0 = [] \<or> Some (hashString (html c0)) = lastHash w2")
        case True
        with assms \<open>connection w = Some conn\<close> l n c ch have "out = Returned" "w' = w2"
          by (auto simp: poll_def Let_def split: if_splits)
        with eq show ?thesis by simp
      next
        case False
        show ?thesis
        proof (cases "onChatUpdate w2")
          case None
          with False assms \<open>connection w = Some conn\<close> l n c ch
          have "out = Returned" "w' = w2\<lparr>lastHash := Some (hashString (html c0))\<rparr>"
            by (auto simp: poll_def Let_def split: if_splits)
          with eq None show ?thesis by simp
        next
          case (Some cb)
          with False assms \<open>connection w = Some conn\<close> l n c ch
          have "w' = (tick (w2\<lparr>lastHash := Some (hashString (html c0))\<rparr>))
                       \<lparr>calls := calls w2 @ [(cb, c0)]\<rparr>"
            by (auto simp: poll_def Let_def split: consumer_reply.splits if_splits)
          with eq Some False show ?thesis by (auto simp: tick_def)
        qed
      qed
    qed
  qed
qed

lemma changeGated_distinct_adj: "changeGated prev hs \<Longrightarrow> distinct_adj hs"
proof (induction hs arbitrary: prev)
  case Nil
  show ?case by simp
next
  case (Cons h hs)
  then show ?case by (cases hs) auto
qed

lemma changeGated_append:
  "changeGated prev (xs @ ys) =
     (changeGated prev xs \<and> changeGated (if xs = [] then prev else Some (last xs)) ys)"
  by (induction xs arbitrary: prev) auto

lemma gatedRun_frame:
  "calls w' = calls w \<Longrightarrow> onChatUpdate w' = onChatUpdate w \<Longrightarrow> lastHash w' = lastHash w
     \<Longrightarrow> gatedRun w w' []"
  by (simp add: gatedRun_def fingerprints_def)

lemma gatedRun_trans:
  assumes "gatedRun w w1 us" "gatedRun w1 w2 vs"
  shows "gatedRun w w2 (us @ vs)"
proof (cases "onChatUpdate w")
  case None
  with assms show ?thesis by (simp add: gatedRun_def fingerprints_def)
next
  case (Some cb)
  with assms show ?thesis
    by (auto simp: gatedRun_def fingerprints_def changeGated_append last_map)
qed

lemma gatedRun_poll:
  assumes "poll r w = (out, w')"
  shows "\<exists>us. length us \<le> 1 \<and> gatedRun w w' us"
proof -
  from poll_step [OF assms] have cb: "onChatUpdate w' = onChatUpdate w" by simp
  have "(calls w' = calls w \<and> (onChatUpdate w \<noteq> None \<longrightarrow> lastHash w' = lastHash w) \<and> out = Returned)
        \<or> (\<exists>cb c. calls w' = calls w @ [(cb, c)] \<and> onChatUpdate w = Some cb
              \<and> lastHash w \<noteq> Some (hashString (html c))
              \<and> lastHash w' = Some (hashString (html c)))"
    using poll_step [OF assms] by (elim conjE)
  then show ?thesis
  proof (elim disjE exE conjE)
    assume "calls w' = calls w" "onChatUpdate w \<noteq> None \<longrightarrow> lastHash w' = lastHash w"
    with cb have "length ([] :: (nat \<times> chat) list) \<le> 1 \<and> gatedRun w w' []"
      by (simp add: gatedRun_def fingerprints_def)
    then show ?thesis by (rule exI)
  next
    fix cb0 c
    assume "calls w' = calls w @ [(cb0, c)]" "onChatUpdate w = Some cb0"
      "lastHash w \<noteq> Some (hashString (html c))" "lastHash w' = Some (hashString (html c))"
    with cb have "length [(cb0, c)] \<le> 1 \<and> gatedRun w w' [(cb0, c)]"
      by (simp add: gatedRun_def fingerprints_def)
    then show ?thesis by (rule exI)
  qed
qed

lemma gatedRun_pollCycles: "\<exists>us. length us \<le> n \<and> gatedRun w (pollCycles r w n) us"
proof (induction n arbitrary: w)
  case 0
  have "length ([] :: (nat \<times> chat) list) \<le> 0 \<and> gatedRun w (pollCycles r w 0) []"
    by (simp add: gatedRun_frame)
  then show ?case by (rule exI)
next
  case (Suc n)
  obtain out w1 where p: "poll r w = (out, w1)" by (cases "poll r w")
  from gatedRun_poll [OF p] obtain us where us: "length us \<le> 1 \<and> gatedRun w w1 us" ..
  from Suc.IH [of w1] obtain vs where vs: "length vs \<le> n \<and> gatedRun w1 (pollCycles r w1 n) vs" ..
  have run: "pollCycles r w (Suc n) = pollCycles r w1 n" using p by simp
  from us vs have "gatedRun w (pollCycles r w1 n) (us @ vs)"
    by (intro gatedRun_trans [of w w1 us]) simp_all
  moreover from us vs have "length (us @ vs) \<le> Suc n" by simp
  ultimately have "length (us @ vs) \<le> Suc n \<and> gatedRun w (pollCycles r w (Suc n)) (us @ vs)"
    unfolding run by simp
  then show ?case by (rule exI)
qed

lemma gatedRun_tryTargets:
  "tryTargets r ms w ts = (res, w') \<Longrightarrow> \<exists>us. gatedRun w w' us"
proof (induction ts arbitrary: w)
  case Nil
  then have "gatedRun w w' []" by (auto simp: gatedRun_frame)
  then show ?case by (rule exI)
next
  case (Cons t ts)
  obtain c w1 where c: "connectCDP r w t = (c, w1)" by (cases "connectCDP r w t")
  from connectCDP_frame [OF c] have g1: "gatedRun w w1 []"
    by (simp add: gatedRun_frame moduleVars_def)
  show ?case
  proof (cases c)
    case None
    with Cons.prems c have "tryTargets r ms w1 ts = (res, w')" by simp
    from Cons.IH [OF this] obtain us where "gatedRun w1 w' us" ..
    with g1 have "gatedRun w w' ([] @ us)" by (rule gatedRun_trans)
    then show ?thesis by (rule exI)
  next
    case (Some cdp)
    obtain ctx w2 where l: "findCascadeContext r w1 cdp = (ctx, w2)"
      by (cases "findCascadeContext r w1 cdp")
    from findCascadeContext_frame [OF l] have "gatedRun w1 w2 []"
      by (simp add: gatedRun_frame moduleVars_def)
    with g1 have g2: "gatedRun w w2 ([] @ [])" by (rule gatedRun_trans)
    show ?thesis
    proof (cases "\<exists>n. ctx = Some (Suc n)")
      case False
      with Cons.prems c Some l have "tryTargets r ms (closeSocket cdp w2) ts = (res, w')"
        by (auto split: option.splits nat.splits)
      from Cons.IH [OF this] obtain us where u: "gatedRun (closeSocket cdp w2) w' us" ..
      have "gatedRun w2 (closeSocket cdp w2) []" by (simp add: gatedRun_frame closeSocket_def)
      with g2 have "gatedRun w (closeSocket cdp w2) (([] @ []) @ [])" by (rule gatedRun_trans)
      from this u have "gatedRun w w' ((([] @ []) @ []) @ us)" by (rule gatedRun_trans)
      then show ?thesis by (rule exI)
    next
      case True
      then obtain n where n: "ctx = Some (Suc n)" ..
      obtain out w3 where p: "poll r (w2\<lparr>connection := Some cdp\<rparr>) = (out, w3)"
        by (cases "poll r (w2\<lparr>connection := Some cdp\<rparr>)")
      from gatedRun_poll [OF p] obtain us where "length us \<le> 1 \<and> gatedRun (w2\<lparr>connection := Some cdp\<rparr>) w3 us" ..
      then have u: "gatedRun (w2\<lparr>connection := Some cdp\<rparr>) w3 us" by simp
      have "gatedRun w2 (w2\<lparr>connection := Some cdp\<rparr>) []" by (simp add: gatedRun_frame)
      with g2 have "gatedRun w (w2\<lparr>connection := Some cdp\<rparr>) (([] @ []) @ [])" by (rule gatedRun_trans)
      from this u have g3: "gatedRun w w3 ((([] @ []) @ []) @ us)" by (rule gatedRun_trans)
      show ?thesis
      proof (cases "out = Threw False")
        case True
        with Cons.prems c Some l n p have "tryTargets r ms w3 ts = (res, w')" by simp
        from Cons.IH [OF this] obtain vs where "gatedRun w3 w' vs" ..
        with g3 have "gatedRun w w' (((([] @ []) @ []) @ us) @ vs)" by (rule gatedRun_trans)
        then show ?thesis by (rule exI)
      next
        case False
        with Cons.prems c Some l n p have "w' = w3 \<or> w' = setInterval ms w3"
          by (cases out) (auto split: if_splits)
        then have "gatedRun w3 w' []" by (auto simp: gatedRun_frame setInterval_def)
        with g3 have "gatedRun w w' (((([] @ []) @ []) @ us) @ [])" by (rule gatedRun_trans)
        then show ?thesis by (rule exI)
      qed
    qed
  qed
qed

lemma gatedRun_startChatStream:
  "\<exists>us. gatedRun (w\<lparr>onChatUpdate := cb\<rparr>) (snd (startChatStream r w cb ms)) us"
proof (cases "findTargets (listing r (clock w)) = []")
  case True
  then have "gatedRun (w\<lparr>onChatUpdate := cb\<rparr>) (snd (startChatStream r w cb ms)) []"
    by (simp add: startChatStream_def Let_def tick_def gatedRun_frame)
  then show ?thesis by (rule exI)
next
  case False
  obtain res w' where t:
    "tryTargets r ms (tick (w\<lparr>onChatUpdate := cb\<rparr>)) (findTargets (listing r (clock w))) = (res, w')"
    by (cases "tryTargets r ms (tick (w\<lparr>onChatUpdate := cb\<rparr>)) (findTargets (listing r (clock w)))")
  from gatedRun_tryTargets [OF t] obtain us where u: "gatedRun (tick (w\<lparr>onChatUpdate := cb\<rparr>)) w' us" ..
  have "gatedRun (w\<lparr>onChatUpdate := cb\<rparr>) (tick (w\<lparr>onChatUpdate := cb\<rparr>)) []"
    by (simp add: gatedRun_frame tick_def)
  from this u have "gatedRun (w\<lparr>onChatUpdate := cb\<rparr>) w' ([] @ us)" by (rule gatedRun_trans)
  moreover have "snd (startChatStream r w cb ms) = w'"
    using False t by (simp add: startChatStream_def Let_def)
  ultimately have "gatedRun (w\<lparr>onChatUpdate := cb\<rparr>) (snd (startChatStream r w cb ms)) ([] @ us)"
    by simp
  then show ?thesis by (rule exI)
qed

lemma hash_A_B: "hashString (html chatB) \<noteq> hashString (html chatA)"
  by (simp add: chatA_def chatB_def hash_eval)

lemma html_A_B: "html chatA \<noteq> []" "html chatB \<noteq> []"
  by (simp_all add: chatA_def chatB_def js_def)

lemma changing_run:
  "calls (pollCycles changing streaming (Suc (Suc (Suc 0)))) = [(7, chatA), (7, chatB)]"
  using hash_A_B html_A_B by (simp add: model_defs changing_def healthy_def streaming_def)

text \<open>
  Claim C6. The fingerprint is a function of its argument alone (the source reads nothing
  but \<^verbatim>\<open>str\<close>): evaluating it twice on a string gives equal results, and two
  identical html strings never have different fingerprints. So there is no spurious
  update: while \<^verbatim>\<open>lastHash\<close> is the fingerprint of \<open>s\<close>, a poll cycle never hands
  the consumer a snapshot whose html is \<open>s\<close>.
\<close>

theorem hashString_deterministic:
  "hashString s = hashString s
   \<and> (s1 = s2 \<longrightarrow> \<not> hashString s1 \<noteq> hashString s2)
   \<and> (lastHash w = Some (hashString s) \<and> calls (snd (poll r w)) = calls w @ [(cb, c)]
        \<longrightarrow> html c \<noteq> s)"
proof -
  have "html c \<noteq> s"
    if l: "lastHash w = Some (hashString s)" and k: "calls (snd (poll r w)) = calls w @ [(cb, c)]"
  proof -
    have p: "poll r w = (fst (poll r w), snd (poll r w))" by simp
    have "(calls (snd (poll r w)) = calls w
            \<and> (onChatUpdate w \<noteq> None \<longrightarrow> lastHash (snd (poll r w)) = lastHash w)
            \<and> fst (poll r w) = Returned)
        \<or> (\<exists>cb c. calls (snd (poll r w)) = calls w @ [(cb, c)] \<and> onChatUpdate w = Some cb
              \<and> lastHash w \<noteq> Some (hashString (html c))
              \<and> lastHash (snd (poll r w)) = Some (hashString (html c)))"
      using poll_step [OF p] by (elim conjE)
    then show ?thesis
    proof (elim disjE exE conjE)
      assume "calls (snd (poll r w)) = calls w"
      with k show ?thesis by simp
    next
      fix cb' c'
      assume "calls (snd (poll r w)) = calls w @ [(cb', c')]"
        and n: "lastHash w \<noteq> Some (hashString (html c'))"
      with k have "c' = c" by simp
      with n l show ?thesis by auto
    qed
  qed
  then show ?thesis by simp
qed

theorem hashString_deterministic_witness:
  "hashString (html chatA) = hashString (html chatA)
   \<and> \<not> hashString (html chatA) \<noteq> hashString (html chatA)
   \<and> lastHash afterA = Some (hashString (html chatA))
   \<and> calls (snd (poll showsB afterA)) = calls afterA @ [(7, chatB)]
   \<and> html chatB \<noteq> html chatA"
proof -
  have l: "lastHash afterA = Some (hashString (html chatA))" by (simp add: afterA_def)
  have k: "calls (snd (poll showsB afterA)) = calls afterA @ [(7, chatB)]"
    using hash_A_B html_A_B
    by (simp add: model_defs showsB_def healthy_def afterA_def streaming_def)
  from hashString_deterministic
    [where s = "html chatA" and ?s1.0 = "html chatA" and ?s2.0 = "html chatA"
       and w = afterA and r = showsB and cb = 7 and c = chatB] l k
  show ?thesis by simp
qed

text \<open>
  Claim C1. From any state and against any remote side: one poll cycle calls the consumer
  at most once, and only with a snapshot whose fingerprint differs from \<^verbatim>\<open>lastHash\<close>;
  over any number of cycles each call carries a fingerprint that differs from the one of
  the call before it (from \<^verbatim>\<open>lastHash\<close> as it stood at the beginning, for the first
  call), so no two consecutive calls carry equal fingerprints; and the same holds for the
  calls of a stream from its start, the first cycle inside \<^verbatim>\<open>startChatStream\<close>
  included. The cycles run one after the other.
\<close>

theorem poll_emits_only_on_change:
  "(\<exists>u. calls (snd (poll r w)) = calls w @ u \<and> length u \<le> 1
         \<and> changeGated (lastHash w) (fingerprints u))
   \<and> (\<exists>us. calls (pollCycles r w n) = calls w @ us \<and> length us \<le> n
          \<and> changeGated (lastHash w) (fingerprints us) \<and> distinct_adj (fingerprints us))
   \<and> (\<exists>us. calls (pollCycles r (snd (startChatStream r w cb ms)) n) = calls w @ us
          \<and> changeGated (lastHash w) (fingerprints us) \<and> distinct_adj (fingerprints us))"
proof -
  obtain out w1 where p: "poll r w = (out, w1)" by (cases "poll r w")
  from gatedRun_poll [OF p] obtain u where "length u \<le> 1 \<and> gatedRun w w1 u" ..
  with p have "calls (snd (poll r w)) = calls w @ u \<and> length u \<le> 1
       \<and> changeGated (lastHash w) (fingerprints u)" by (simp add: gatedRun_def)
  then have one: "\<exists>u. calls (snd (poll r w)) = calls w @ u \<and> length u \<le> 1
       \<and> changeGated (lastHash w) (fingerprints u)" by (rule exI)
  from gatedRun_pollCycles [where w = w and r = r and n = n] obtain us where "length us \<le> n \<and> gatedRun w (pollCycles r w n) us" ..
  then have "calls (pollCycles r w n) = calls w @ us \<and> length us \<le> n
       \<and> changeGated (lastHash w) (fingerprints us) \<and> distinct_adj (fingerprints us)"
    by (auto simp: gatedRun_def dest: changeGated_distinct_adj)
  then have many: "\<exists>us. calls (pollCycles r w n) = calls w @ us \<and> length us \<le> n
       \<and> changeGated (lastHash w) (fingerprints us) \<and> distinct_adj (fingerprints us)" by (rule exI)
  from gatedRun_startChatStream [where w = w and cb = cb and r = r and ms = ms] obtain vs where
    s: "gatedRun (w\<lparr>onChatUpdate := cb\<rparr>) (snd (startChatStream r w cb ms)) vs" ..
  from gatedRun_pollCycles [where w = "snd (startChatStream r w cb ms)" and r = r and n = n] obtain ws where
    "length ws \<le> n \<and> gatedRun (snd (startChatStream r w cb ms)) (pollCycles r (snd (startChatStream r w cb ms)) n) ws" ..
  then have "gatedRun (snd (startChatStream r w cb ms)) (pollCycles r (snd (startChatStream r w cb ms)) n) ws"
    by simp
  with s have "gatedRun (w\<lparr>onChatUpdate := cb\<rparr>) (pollCycles r (snd (startChatStream r w cb ms)) n) (vs @ ws)"
    by (rule gatedRun_trans)
  then have "calls (pollCycles r (snd (startChatStream r w cb ms)) n) = calls w @ (vs @ ws)
       \<and> changeGated (lastHash w) (fingerprints (vs @ ws)) \<and> distinct_adj (fingerprints (vs @ ws))"
    by (auto simp: gatedRun_def dest: changeGated_distinct_adj)
  then have started: "\<exists>us. calls (pollCycles r (snd (startChatStream r w cb ms)) n) = calls w @ us
       \<and> changeGated (lastHash w) (fingerprints us) \<and> distinct_adj (fingerprints us)" by (rule exI)
  from one many started show ?thesis by (intro conjI)
qed

theorem poll_emits_only_on_change_witness:
  "(\<exists>u. calls (snd (poll changing streaming)) = calls streaming @ u \<and> length u \<le> 1
         \<and> changeGated (lastHash streaming) (fingerprints u))
   \<and> (\<exists>us. calls (pollCycles changing streaming (Suc (Suc (Suc 0)))) = calls streaming @ us
          \<and> length us \<le> Suc (Suc (Suc 0))
          \<and> changeGated (lastHash streaming) (fingerprints us) \<and> distinct_adj (fingerprints us))
   \<and> (\<exists>us. calls (pollCycles changing (snd (startChatStream changing initial (Some 7) 2000))
                     (Suc (Suc (Suc 0)))) = calls initial @ us
          \<and> changeGated (lastHash initial) (fingerprints us) \<and> distinct_adj (fingerprints us))
   \<and> calls (pollCycles changing streaming (Suc (Suc (Suc 0)))) = [(7, chatA), (7, chatB)]"
proof -
  note a = poll_emits_only_on_change
    [where r = changing and w = streaming and n = "Suc (Suc (Suc 0))"]
  note b = poll_emits_only_on_change
    [where r = changing and w = initial and n = "Suc (Suc (Suc 0))" and cb = "Some 7" and ms = 2000]
  show ?thesis
    by (rule conjI [OF a [THEN conjunct1]
          conjI [OF a [THEN conjunct2, THEN conjunct1]
            conjI [OF b [THEN conjunct2, THEN conjunct2] changing_run]]])
qed

text \<open>
  Claim C4 (the code departs from it). When the consumer callback throws, the cycle does
  not end like a skipped cycle: the exception leaves \<^verbatim>\<open>poll\<close>, and
  \<^verbatim>\<open>lastHash\<close> already holds the fingerprint of the snapshot, so the next cycle
  does not deliver it again even to a consumer that works. Thrown by the first cycle
  inside \<^verbatim>\<open>startChatStream\<close>, the exception is caught by the loop over the targets:
  the call reports failure and leaves \<^verbatim>\<open>connection\<close> set, its socket open, and no
  timer.
\<close>

theorem consumer_exception_leaves_poll:
  "fst (poll throwing streaming) = Threw False
   \<and> lastHash streaming = None
   \<and> lastHash (snd (poll throwing streaming)) = Some (hashString (html chatA))
   \<and> calls (snd (poll throwing streaming)) = [(7, chatA)]
   \<and> calls (snd (poll healthy (snd (poll throwing streaming)))) = [(7, chatA)]
   \<and> (\<exists>e. fst (startChatStream throwing initial (Some 7) 2000) = NotStarted e)
   \<and> connection (snd (startChatStream throwing initial (Some 7) 2000)) = Some 0
   \<and> openSockets (snd (startChatStream throwing initial (Some 7) 2000)) = [0]
   \<and> pollInterval (snd (startChatStream throwing initial (Some 7) 2000)) = None"
  using html_A_B by (simp add: model_defs throwing_def healthy_def streaming_def page1_def js_def)

section \<open>Starting the stream\<close>

text \<open>
  Claim C3 (the code departs from it). \<^verbatim>\<open>startChatStream\<close> never closes a socket it
  did not open and never clears a timer: started twice against a remote side on which
  everything works, it leaves both sockets open and both timers running, and the module
  variables point to the second ones only.
\<close>

theorem second_start_keeps_first_session:
  "(let w1 = snd (startChatStream healthy initial (Some 7) 2000);
        w2 = snd (startChatStream healthy w1 (Some 8) 2000)
    in isStreaming w1 \<and> openSockets w1 = [0] \<and> activeIntervals w1 = [(1, 2000)]
       \<and> fst (startChatStream healthy w1 (Some 8) 2000) = Started (Some (js ''Antigravity''))
       \<and> openSockets w2 = [0, 2] \<and> activeIntervals w2 = [(1, 2000), (3, 2000)]
       \<and> connection w2 = Some 2 \<and> pollInterval w2 = Some 3)"
  by (simp add: model_defs scenario_defs js_def)

lemma tryTargets_no_root:
  assumes "\<forall>t ws ctx. probe r t ws ctx \<noteq> ProbeFound True"
  shows "tryTargets r ms w ts = (res, w') \<Longrightarrow>
     (\<exists>e. res = NotStarted e) \<and> moduleVars w' = moduleVars w \<and> calls w' = calls w
     \<and> activeIntervals w' = activeIntervals w"
proof (induction ts arbitrary: w)
  case Nil
  then show ?case by auto
next
  case (Cons t ts)
  obtain c w1 where c: "connectCDP r w t = (c, w1)" by (cases "connectCDP r w t")
  note f1 = connectCDP_frame [OF c]
  show ?case
  proof (cases c)
    case None
    with Cons.prems c have "tryTargets r ms w1 ts = (res, w')" by simp
    from Cons.IH [OF this] f1 show ?thesis by simp
  next
    case (Some cdp)
    obtain ctx w2 where l: "findCascadeContext r w1 cdp = (ctx, w2)"
      by (cases "findCascadeContext r w1 cdp")
    note f2 = findCascadeContext_frame [OF l]
    have "ctx = None"
      using findCascadeContext_found [of r w1 cdp _ w2] l assms by (cases ctx) auto
    with Cons.prems c Some l have "tryTargets r ms (closeSocket cdp w2) ts = (res, w')" by simp
    from Cons.IH [OF this] f1 f2 show ?thesis by (simp add: closeSocket_frame)
  qed
qed

lemma tryTargets_callback:
  "tryTargets r ms w ts = (res, w') \<Longrightarrow> onChatUpdate w' = onChatUpdate w"
proof (induction ts arbitrary: w)
  case Nil
  then show ?case by auto
next
  case (Cons t ts)
  obtain c w1 where c: "connectCDP r w t = (c, w1)" by (cases "connectCDP r w t")
  from connectCDP_frame [OF c] have f1: "onChatUpdate w1 = onChatUpdate w"
    by (simp add: moduleVars_def)
  show ?case
  proof (cases c)
    case None
    with Cons.prems c have "tryTargets r ms w1 ts = (res, w')" by simp
    from Cons.IH [OF this] f1 show ?thesis by simp
  next
    case (Some cdp)
    obtain ctx w2 where l: "findCascadeContext r w1 cdp = (ctx, w2)"
      by (cases "findCascadeContext r w1 cdp")
    from findCascadeContext_frame [OF l] have f2: "onChatUpdate w2 = onChatUpdate w1"
      by (simp add: moduleVars_def)
    show ?thesis
    proof (cases "\<exists>n. ctx = Some (Suc n)")
      case False
      with Cons.prems c Some l have "tryTargets r ms (closeSocket cdp w2) ts = (res, w')"
        by (auto split: option.splits nat.splits)
      from Cons.IH [OF this] f1 f2 show ?thesis by (simp add: closeSocket_def)
    next
      case True
      then obtain n where n: "ctx = Some (Suc n)" ..
      obtain out w3 where p: "poll r (w2\<lparr>connection := Some cdp\<rparr>) = (out, w3)"
        by (cases "poll r (w2\<lparr>connection := Some cdp\<rparr>)")
      from poll_step [OF p] have f3: "onChatUpdate w3 = onChatUpdate w2" by simp
      show ?thesis
      proof (cases "out = Threw False")
        case True
        with Cons.prems c Some l n p have "tryTargets r ms w3 ts = (res, w')" by simp
        from Cons.IH [OF this] f1 f2 f3 show ?thesis by simp
      next
        case False
        with Cons.prems c Some l n p have "w' = w3 \<or> w' = setInterval ms w3"
          by (cases out) (auto split: if_splits)
        with f1 f2 f3 show ?thesis by (auto simp: setInterval_def)
      qed
    qed
  qed
qed

lemma startChatStream_callback: "onChatUpdate (snd (startChatStream r w cb ms)) = cb"
proof (cases "findTargets (listing r (clock w)) = []")
  case True
  then show ?thesis by (simp add: startChatStream_def Let_def tick_def)
next
  case False
  obtain res w' where t:
    "tryTargets r ms (tick (w\<lparr>onChatUpdate := cb\<rparr>)) (findTargets (listing r (clock w))) = (res, w')"
    by (cases "tryTargets r ms (tick (w\<lparr>onChatUpdate := cb\<rparr>)) (findTargets (listing r (clock w)))")
  from tryTargets_callback [OF t] have "onChatUpdate w' = cb" by (simp add: tick_def)
  with False t show ?thesis by (simp add: startChatStream_def Let_def)
qed

lemma startChatStream_no_root:
  assumes "findTargets (listing r (clock w)) = [] \<or> (\<forall>t ws ctx. probe r t ws ctx \<noteq> ProbeFound True)"
  shows "(\<exists>e. fst (startChatStream r w cb ms) = NotStarted e)
     \<and> connection (snd (startChatStream r w cb ms)) = connection w
     \<and> pollInterval (snd (startChatStream r w cb ms)) = pollInterval w
     \<and> lastHash (snd (startChatStream r w cb ms)) = lastHash w
     \<and> calls (snd (startChatStream r w cb ms)) = calls w
     \<and> activeIntervals (snd (startChatStream r w cb ms)) = activeIntervals w"
proof (cases "findTargets (listing r (clock w)) = []")
  case True
  then show ?thesis by (simp add: startChatStream_def Let_def tick_def)
next
  case False
  with assms have nr: "\<forall>t ws ctx. probe r t ws ctx \<noteq> ProbeFound True" by simp
  obtain res w' where t:
    "tryTargets r ms (tick (w\<lparr>onChatUpdate := cb\<rparr>)) (findTargets (listing r (clock w))) = (res, w')"
    by (cases "tryTargets r ms (tick (w\<lparr>onChatUpdate := cb\<rparr>)) (findTargets (listing r (clock w)))")
  from tryTargets_no_root [OF nr t] False t show ?thesis
    by (auto simp: startChatStream_def Let_def tick_def moduleVars_def)
qed

text \<open>
  Claim C5. When discovery finds no target, or no probe ever reports the chat root,
  \<^verbatim>\<open>startChatStream\<close> returns the failure result (it neither throws nor reports
  success) and \<^verbatim>\<open>isStreaming\<close> is what it was before: false if it was false.
\<close>

theorem start_fails_without_chat_root:
  assumes "findTargets (listing r (clock w)) = [] \<or> (\<forall>t ws ctx. probe r t ws ctx \<noteq> ProbeFound True)"
  shows "(\<exists>e. fst (startChatStream r w cb ms) = NotStarted e)
     \<and> \<not> success (fst (startChatStream r w cb ms))
     \<and> isStreaming (snd (startChatStream r w cb ms)) = isStreaming w"
  using startChatStream_no_root [OF assms, of cb ms] by (auto simp: isStreaming_def)

theorem start_fails_without_chat_root_witness:
  "findTargets (listing silent (clock initial)) = []
   \<and> \<not> isStreaming initial
   \<and> (\<exists>e. fst (startChatStream silent initial (Some 7) 2000) = NotStarted e)
   \<and> \<not> success (fst (startChatStream silent initial (Some 7) 2000))
   \<and> \<not> isStreaming (snd (startChatStream silent initial (Some 7) 2000))"
proof -
  have h: "findTargets (listing silent (clock initial)) = []"
    by (simp add: findTargets_def CDP_PORTS_def silent_def healthy_def)
  have i: "\<not> isStreaming initial" by (simp add: isStreaming_def initial_def)
  from start_fails_without_chat_root [OF disjI1 [OF h], of "Some 7" 2000] h i show ?thesis
    by simp
qed

text \<open>
  Claim C10. \<^verbatim>\<open>startChatStream\<close> assigns \<^verbatim>\<open>onChatUpdate\<close> first and nothing
  assigns it again, so after every call it holds the supplied callback; when the call
  fails because there is no target or no chat root, \<^verbatim>\<open>connection\<close>,
  \<^verbatim>\<open>pollInterval\<close> and \<^verbatim>\<open>lastHash\<close> are unchanged while the callback has
  been replaced.
\<close>

theorem failed_start_replaces_callback:
  "onChatUpdate (snd (startChatStream r w cb ms)) = cb
   \<and> (findTargets (listing r (clock w)) = [] \<or> (\<forall>t ws ctx. probe r t ws ctx \<noteq> ProbeFound True)
      \<longrightarrow> (\<exists>e. fst (startChatStream r w cb ms) = NotStarted e)
          \<and> connection (snd (startChatStream r w cb ms)) = connection w
          \<and> pollInterval (snd (startChatStream r w cb ms)) = pollInterval w
          \<and> lastHash (snd (startChatStream r w cb ms)) = lastHash w)"
  using startChatStream_callback [of r w cb ms] startChatStream_no_root [of r w cb ms] by simp

theorem failed_start_replaces_callback_witness:
  "onChatUpdate streaming = Some 7
   \<and> (\<exists>e. fst (startChatStream rootGone streaming (Some 8) 2000) = NotStarted e)
   \<and> onChatUpdate (snd (startChatStream rootGone streaming (Some 8) 2000)) = Some 8
   \<and> connection (snd (startChatStream rootGone streaming (Some 8) 2000)) = connection streaming
   \<and> pollInterval (snd (startChatStream rootGone streaming (Some 8) 2000)) = pollInterval streaming
   \<and> lastHash (snd (startChatStream rootGone streaming (Some 8) 2000)) = lastHash streaming"
proof -
  have h: "\<forall>t ws ctx. probe rootGone t ws ctx \<noteq> ProbeFound True"
    by (simp add: rootGone_def)
  have c: "onChatUpdate streaming = Some 7" by (simp add: streaming_def)
  from failed_start_replaces_callback [of rootGone streaming "Some 8" 2000] h c show ?thesis
    by simp
qed

section \<open>The one-shot snapshot\<close>

lemma getChatSnapshot_connected_frame:
  assumes "connection w = Some conn" "getChatSnapshot r w = (res, w')"
  shows "moduleVars w' = moduleVars w \<and> calls w' = calls w \<and> openSockets w' = openSockets w
     \<and> activeIntervals w' = activeIntervals w"
proof -
  obtain ctx w1 where l: "findCascadeContext r w conn = (ctx, w1)"
    by (cases "findCascadeContext r w conn")
  note f1 = findCascadeContext_frame [OF l]
  show ?thesis
  proof (cases "\<exists>n. ctx = Some (Suc n)")
    case False
    with assms l have "w' = w1"
      by (auto simp: getChatSnapshot_def split: option.splits nat.splits)
    with f1 show ?thesis by simp
  next
    case True
    then obtain n where n: "ctx = Some (Suc n)" ..
    with assms l have "captureChat r w1 conn (Suc n) = (res, w')"
      by (simp add: getChatSnapshot_def)
    from captureChat_frame [OF this] f1 show ?thesis by simp
  qed
qed

lemma snapshotTargets_frame:
  "snapshotTargets r w ts = (res, w') \<Longrightarrow>
     moduleVars w' = moduleVars w \<and> calls w' = calls w \<and> activeIntervals w' = activeIntervals w"
proof (induction ts arbitrary: w)
  case Nil
  then show ?case by auto
next
  case (Cons t ts)
  obtain c w1 where c: "connectCDP r w t = (c, w1)" by (cases "connectCDP r w t")
  note f1 = connectCDP_frame [OF c]
  show ?case
  proof (cases c)
    case None
    with Cons.prems c have "snapshotTargets r w1 ts = (res, w')" by simp
    from Cons.IH [OF this] f1 show ?thesis by simp
  next
    case (Some cdp)
    obtain ctx w2 where l: "findCascadeContext r w1 cdp = (ctx, w2)"
      by (cases "findCascadeContext r w1 cdp")
    note f2 = findCascadeContext_frame [OF l]
    show ?thesis
    proof (cases "\<exists>n. ctx = Some (Suc n)")
      case False
      with Cons.prems c Some l have "snapshotTargets r (closeSocket cdp w2) ts = (res, w')"
        by (auto split: option.splits nat.splits)
      from Cons.IH [OF this] f1 f2 show ?thesis by (simp add: closeSocket_frame)
    next
      case True
      then obtain n where n: "ctx = Some (Suc n)" ..
      obtain ch w3 where k: "captureChat r w2 cdp (Suc n) = (ch, w3)"
        by (cases "captureChat r w2 cdp (Suc n)")
      with Cons.prems c Some l n have "w' = closeSocket cdp w3" by simp
      with captureChat_frame [OF k] f1 f2 show ?thesis by (simp add: closeSocket_frame)
    qed
  qed
qed

lemma getChatSnapshot_frame:
  "getChatSnapshot r w = (res, w') \<Longrightarrow>
     moduleVars w' = moduleVars w \<and> calls w' = calls w \<and> activeIntervals w' = activeIntervals w"
proof (cases "connection w")
  case None
  assume "getChatSnapshot r w = (res, w')"
  with None have "snapshotTargets r (tick w) (findTargets (listing r (clock w))) = (res, w')"
    by (simp add: getChatSnapshot_def)
  from snapshotTargets_frame [OF this] show ?thesis by (simp add: tick_def moduleVars_def)
next
  case (Some conn)
  assume "getChatSnapshot r w = (res, w')"
  from getChatSnapshot_connected_frame [OF Some this] show ?thesis by simp
qed

text \<open>
  Claim C9 (the code departs from it). \<^verbatim>\<open>getChatSnapshot\<close> assigns no module
  variable and touches no timer (\<open>getChatSnapshot_frame\<close>), and it closes every session
  that \<^verbatim>\<open>connectCDP\<close> returns. But when \<^verbatim>\<open>Runtime.enable\<close> is rejected after
  the socket has opened, \<^verbatim>\<open>connectCDP\<close> throws, the \<^verbatim>\<open>catch\<close> of the loop
  swallows the exception, and the socket stays open after the call has returned.
\<close>

theorem snapshot_leaves_socket_open:
  "fst (getChatSnapshot enableRejected initial) = None
   \<and> openSockets initial = []
   \<and> openSockets (snd (getChatSnapshot enableRejected initial)) = [0]"
  by (simp add: model_defs scenario_defs js_def)


section \<open>The extraction script on a terminal document\<close>



subsection \<open>The live tree of a terminal document\<close>


lemma concat_replicate_Nil: "concat (replicate k []) = []"
  by (induction k) auto









subsection \<open>The clone of a terminal document\<close>












lemma replaceNode_canvas: "i \<noteq> j \<Longrightarrow> replaceNode i new (canvasC j) = canvasC j"
  by (simp add: canvasC_def)












































end
